theory Spec2Isabelle
  imports Main
begin

text \<open>
  A model of the class \<open>DutchWordAnalyzer\<close> of \<open>src/dutch_word_analyzer.py\<close>: the table
  of irregular verbs, the lookup of a word, the three rule functions and the loop of
  \<open>process_words_from_file\<close>. Line numbers are those of that file. Exceptions are values
  of \<open>py_error\<close>; the network's answers and the lines of the input file are parameters.
\<close>

section \<open>Python strings\<close>

text \<open>
  Words are Python \<open>str\<close> values, modelled as \<^typ>\<open>string\<close>. A character of the model
  is a code point below 256 (Latin-1, which holds the letters and accents of Dutch);
  strings with other code points are outside the model. On these code points
  \<open>str.isspace\<close> holds for the twelve characters of \<open>is_space\<close>, which \<open>str.strip\<close>
  removes from both ends, and \<open>str.lower\<close> works character by character: it adds 32 to
  \<open>A\<close>..\<open>Z\<close> and to the code points 0xC0..0xDE other than 0xD7, and leaves every other
  character alone.
\<close>

definition is_space :: "char \<Rightarrow> bool" where
  "is_space c =
     (c \<in> set [CHR 0x09, CHR 0x0A, CHR 0x0B, CHR 0x0C, CHR 0x0D,
                CHR 0x1C, CHR 0x1D, CHR 0x1E, CHR 0x1F, CHR 0x20,
                CHR 0x85, CHR 0xA0])"

definition strip :: "string \<Rightarrow> string" where
  "strip s = rev (dropWhile is_space (rev (dropWhile is_space s)))"

definition lower_char :: "char \<Rightarrow> char" where
  "lower_char c =
     (case map_of
        (zip (''ABCDEFGHIJKLMNOPQRSTUVWXYZ'' @
              [CHR 0xC0, CHR 0xC1, CHR 0xC2, CHR 0xC3, CHR 0xC4, CHR 0xC5, CHR 0xC6, CHR 0xC7,
               CHR 0xC8, CHR 0xC9, CHR 0xCA, CHR 0xCB, CHR 0xCC, CHR 0xCD, CHR 0xCE, CHR 0xCF,
               CHR 0xD0, CHR 0xD1, CHR 0xD2, CHR 0xD3, CHR 0xD4, CHR 0xD5, CHR 0xD6, CHR 0xD8,
               CHR 0xD9, CHR 0xDA, CHR 0xDB, CHR 0xDC, CHR 0xDD, CHR 0xDE])
             (''abcdefghijklmnopqrstuvwxyz'' @
              [CHR 0xE0, CHR 0xE1, CHR 0xE2, CHR 0xE3, CHR 0xE4, CHR 0xE5, CHR 0xE6, CHR 0xE7,
               CHR 0xE8, CHR 0xE9, CHR 0xEA, CHR 0xEB, CHR 0xEC, CHR 0xED, CHR 0xEE, CHR 0xEF,
               CHR 0xF0, CHR 0xF1, CHR 0xF2, CHR 0xF3, CHR 0xF4, CHR 0xF5, CHR 0xF6, CHR 0xF8,
               CHR 0xF9, CHR 0xFA, CHR 0xFB, CHR 0xFC, CHR 0xFD, CHR 0xFE])) c of
        None \<Rightarrow> c
      | Some d \<Rightarrow> d)"

definition lower :: "string \<Rightarrow> string" where
  "lower s = map lower_char s"

definition endswith :: "string \<Rightarrow> string \<Rightarrow> bool" where
  "endswith w suf = (length suf \<le> length w \<and> drop (length w - length suf) w = suf)"

text \<open>Truthiness of a value that is \<open>None\<close> or a \<open>str\<close>: \<open>None\<close> and \<open>''\<close> are falsy.\<close>

fun truthy :: "string option \<Rightarrow> bool" where
  "truthy None = False"
| "truthy (Some s) = (s \<noteq> [])"

section \<open>The data model\<close>

datatype py_error = AttributeError | KeyError

datatype slot = past_tense | past_participle | present_tense | plural | comparative | superlative

text \<open>
  A \<open>forms\<close> dictionary maps slot names to \<open>None\<close> or a string. A key can be absent
  (\<open>f k = None\<close>), present with the value \<open>None\<close> (\<open>f k = Some None\<close>) or present with a
  string. \<open>forms_get\<close> is \<open>dict.get(key)\<close>, which does not tell the first two apart.
\<close>

type_synonym forms_dict = "slot \<rightharpoonup> string option"

definition forms_get :: "forms_dict \<Rightarrow> slot \<Rightarrow> string option" where
  "forms_get f k = (case f k of None \<Rightarrow> None | Some v \<Rightarrow> v)"

text \<open>\<open>any(forms.values())\<close>\<close>

definition any_values :: "forms_dict \<Rightarrow> bool" where
  "any_values f =
     (truthy (forms_get f past_tense) \<or> truthy (forms_get f past_participle) \<or>
      truthy (forms_get f present_tense) \<or> truthy (forms_get f plural) \<or>
      truthy (forms_get f comparative) \<or> truthy (forms_get f superlative))"

text \<open>Truthiness of a dictionary: it has a key.\<close>

definition nonempty_dict :: "(slot \<rightharpoonup> 'a) \<Rightarrow> bool" where
  "nonempty_dict f =
     (f past_tense \<noteq> None \<or> f past_participle \<noteq> None \<or> f present_tense \<noteq> None \<or>
      f plural \<noteq> None \<or> f comparative \<noteq> None \<or> f superlative \<noteq> None)"

record word_info =
  word :: string
  meanings :: "string list"
  forms :: forms_dict
  word_type :: "string option"

text \<open>The dictionary \<open>_get_wiktionary_info\<close> returns: it has no \<open>word\<close> key.\<close>

record wiktionary_data =
  wk_meanings :: "string list"
  wk_forms :: forms_dict
  wk_word_type :: "string option"

definition IRREGULAR_VERBS :: "string \<rightharpoonup> string \<times> string" where
  "IRREGULAR_VERBS = map_of
     [(''lezen'', (''las'', ''gelezen'')),
      (''schrijven'', (''schreef'', ''geschreven'')),
      (''begrijpen'', (''begreep'', ''begrepen'')),
      (''komen'', (''kwam'', ''gekomen'')),
      (''gaan'', (''ging'', ''gegaan'')),
      (''zien'', (''zag'', ''gezien'')),
      (''doen'', (''deed'', ''gedaan'')),
      (''hebben'', (''had'', ''gehad'')),
      (''zijn'', (''was'', ''geweest'')),
      (''worden'', (''werd'', ''geworden'')),
      (''nemen'', (''nam'', ''genomen'')),
      (''geven'', (''gaf'', ''gegeven'')),
      (''blijven'', (''bleef'', ''gebleven'')),
      (''krijgen'', (''kreeg'', ''gekregen'')),
      (''zeggen'', (''zei'', ''gezegd'')),
      (''weten'', (''wist'', ''geweten'')),
      (''eten'', (''at'', ''gegeten'')),
      (''drinken'', (''dronk'', ''gedronken'')),
      (''lopen'', (''liep'', ''gelopen'')),
      (''staan'', (''stond'', ''gestaan'')),
      (''zitten'', (''zat'', ''gezeten'')),
      (''liggen'', (''lag'', ''gelegen'')),
      (''vinden'', (''vond'', ''gevonden'')),
      (''denken'', (''dacht'', ''gedacht'')),
      (''brengen'', (''bracht'', ''gebracht'')),
      (''kopen'', (''kocht'', ''gekocht'')),
      (''verkopen'', (''verkocht'', ''verkocht'')),
      (''helpen'', (''hielp'', ''geholpen'')),
      (''spreken'', (''sprak'', ''gesproken''))]"

section \<open>The lookup collaborator\<close>

text \<open>
  \<open>_get_wiktionary_info\<close> makes three HTTP requests. What the network answers is a
  parameter of the model, given as what the function's parsing code extracts from it:
  \<^item> \<open>defn\<close>: \<open>None\<close> when the definition request or the decoding of its answer raises
    (the outer handler then prints a warning and the function returns \<open>None\<close>);
    otherwise the value of \<open>result['word_type']\<close> and of \<open>result['meanings']\<close> after
    lines 114-134 (with a status other than 200 these are \<open>None\<close> and \<open>[]\<close>);
  \<^item> \<open>infl\<close>: the entries of \<open>result['forms']\<close> after the inflections block of lines
    137-175, whose own handlers swallow every error (empty when the endpoint fails);
  \<^item> \<open>page_past\<close>, \<open>page_participle\<close>: for the page of lines 188-227, the cleaned
    capture of each pattern that matches, in the order of the patterns (empty when the
    request fails or nothing matches).
\<close>

record wiktionary_response =
  defn :: "(string option \<times> string list) option"
  infl :: "slot \<rightharpoonup> string"
  page_past :: "string list"
  page_participle :: "string list"

type_synonym network = "string \<Rightarrow> wiktionary_response"

text \<open>
  One of the two pattern loops of lines 200-225: while the slot is falsy, the first
  capture longer than one character is stored and the loop left.
\<close>

definition page_fill :: "slot \<Rightarrow> string list \<Rightarrow> forms_dict \<Rightarrow> forms_dict" where
  "page_fill k cands f =
     (if truthy (forms_get f k) then f
      else (case find (\<lambda>s. s \<noteq> [] \<and> length s > 1) cands of
              None \<Rightarrow> f
            | Some s \<Rightarrow> f(k \<mapsto> Some s)))"

definition get_wiktionary_info :: "network \<Rightarrow> string \<Rightarrow> wiktionary_data option" where
  "get_wiktionary_info net w =
     (case defn (net w) of
        None \<Rightarrow> None
      | Some (t, ms) \<Rightarrow>
          let f0 = (\<lambda>k. map_option Some (infl (net w) k));
              t1 = (case IRREGULAR_VERBS w of
                      None \<Rightarrow> t
                    | Some (pt, pp) \<Rightarrow> if \<not> truthy t then Some ''verb'' else t);
              f1 = (case IRREGULAR_VERBS w of
                      None \<Rightarrow> f0
                    | Some (pt, pp) \<Rightarrow> f0(past_tense \<mapsto> Some pt, past_participle \<mapsto> Some pp));
              f2 = page_fill past_tense (page_past (net w)) f1;
              f3 = page_fill past_participle (page_participle (net w)) f2
          in if ms \<noteq> [] \<or> any_values f3
             then Some \<lparr>wk_meanings = ms, wk_forms = f3, wk_word_type = t1\<rparr>
             else None)"

text \<open>\<open>_get_woordenboek_info\<close> is a placeholder that returns \<open>None\<close>.\<close>

definition get_woordenboek_info :: "string \<Rightarrow> wiktionary_data option" where
  "get_woordenboek_info w = None"

definition seed :: "string \<Rightarrow> word_info" where
  "seed w = \<lparr>word = w, meanings = [], forms = (\<lambda>k. Some None), word_type = None\<rparr>"

text \<open>
  \<open>get_word_info\<close> returns the empty dictionary for a blank word (\<open>None\<close> here).
  \<open>result.update(wiktionary_data)\<close> replaces the values of the keys \<open>meanings\<close>,
  \<open>forms\<close> and \<open>word_type\<close>; the Woordenboek data is merged key by key.
\<close>

definition get_word_info :: "network \<Rightarrow> string \<Rightarrow> word_info option" where
  "get_word_info net word0 =
     (let w = lower (strip word0) in
      if w = [] then None
      else
        let result = seed w;
            result1 = (case get_wiktionary_info net w of
                         None \<Rightarrow> result
                       | Some d \<Rightarrow> result\<lparr>meanings := wk_meanings d, forms := wk_forms d,
                                          word_type := wk_word_type d\<rparr>);
            result2 = (case get_woordenboek_info w of
                         None \<Rightarrow> result1
                       | Some wb \<Rightarrow>
                           result1\<lparr>meanings := (if meanings result1 = [] then wk_meanings wb
                                                 else meanings result1),
                                    word_type := (if \<not> truthy (word_type result1)
                                                  then wk_word_type wb else word_type result1),
                                    forms := (\<lambda>k. case forms result1 k of
                                                None \<Rightarrow> None
                                              | Some v \<Rightarrow>
                                                  if \<not> truthy v \<and> truthy (forms_get (wk_forms wb) k)
                                                  then Some (forms_get (wk_forms wb) k)
                                                  else Some v)\<rparr>)
        in Some result2)"

section \<open>The rule engine\<close>

definition get_verb_forms :: "string \<Rightarrow> (slot \<rightharpoonup> string)" where
  "get_verb_forms w =
     (if endswith w ''en'' then
        let stem = take (length w - 2) w in
        if length stem > 0 then
          let final_cons = lower_char (last stem);
              voiceless = (final_cons \<in> set ''ptkfsxc'')
          in [past_tense \<mapsto> (if voiceless then stem @ ''te'' else stem @ ''de''),
              past_participle \<mapsto> (if voiceless then ''ge'' @ stem @ ''t''
                                     else ''ge'' @ stem @ ''d'')]
        else Map.empty
      else Map.empty)"

definition get_noun_forms :: "string \<Rightarrow> (slot \<rightharpoonup> string)" where
  "get_noun_forms w =
     (if endswith w ''el'' \<or> endswith w ''er'' \<or> endswith w ''en'' then [plural \<mapsto> w @ ''s'']
      else if endswith w ''heid'' then [plural \<mapsto> w @ ''en'']
      else if endswith w ''ing'' then [plural \<mapsto> w @ ''en'']
      else [plural \<mapsto> w @ ''en''])"

definition get_adjective_forms :: "string \<Rightarrow> (slot \<rightharpoonup> string)" where
  "get_adjective_forms w =
     (if length w > 2 then
        [comparative \<mapsto> w @ ''er'',
         superlative \<mapsto> (if endswith w ''r'' then w @ ''st'' else w @ ''st'')]
      else Map.empty)"

section \<open>The per-word pipeline of \<open>process_words_from_file\<close>\<close>

text \<open>
  \<open>for key, value in new.items(): if not forms.get(key): forms[key] = value\<close>
\<close>

definition fill_forms :: "forms_dict \<Rightarrow> (slot \<rightharpoonup> string) \<Rightarrow> forms_dict" where
  "fill_forms f new =
     (\<lambda>k. case new k of
             None \<Rightarrow> f k
           | Some v \<Rightarrow> if truthy (forms_get f k) then f k else Some (Some v))"

text \<open>
  The inference block (lines 334-367) works on the local variable \<open>word_type\<close>, which
  holds the lower-cased type, and on the record. Each of its three parts maps the pair
  of the two to the pair after it.
\<close>

definition infer_verb :: "string \<Rightarrow> bool \<Rightarrow> string \<times> word_info \<Rightarrow> string \<times> word_info" where
  "infer_verb w is_irregular s =
     (case s of (wt, wi) \<Rightarrow>
        if \<not> is_irregular then
          let verb_forms = get_verb_forms w in
          if nonempty_dict verb_forms \<and> any_values (\<lambda>k. map_option Some (verb_forms k)) then
            let (wt1, wi1) = (if wt = [] then (''verb'', wi\<lparr>word_type := Some ''verb''\<rparr>)
                              else (wt, wi))
            in if wt1 = ''verb'' then (wt1, wi1\<lparr>forms := fill_forms (forms wi1) verb_forms\<rparr>)
               else (wt1, wi1)
          else (wt, wi)
        else if is_irregular \<and> wt = [] then (''verb'', wi\<lparr>word_type := Some ''verb''\<rparr>)
        else (wt, wi))"

definition infer_noun :: "string \<Rightarrow> string \<times> word_info \<Rightarrow> string \<times> word_info" where
  "infer_noun w s =
     (case s of (wt, wi) \<Rightarrow>
        let noun_forms = get_noun_forms w;
            (wt1, wi1) = (if nonempty_dict noun_forms \<and> wt = []
                          then (''noun'', wi\<lparr>word_type := Some ''noun''\<rparr>)
                          else (wt, wi))
        in if wt1 = ''noun'' then
             (if nonempty_dict noun_forms \<and> \<not> truthy (forms_get (forms wi1) plural)
              then (wt1, wi1\<lparr>forms := (forms wi1)(plural \<mapsto> noun_forms plural)\<rparr>)
              else (wt1, wi1))
           else (wt1, wi1))"

definition infer_adjective :: "string \<Rightarrow> string \<times> word_info \<Rightarrow> string \<times> word_info" where
  "infer_adjective w s =
     (case s of (wt, wi) \<Rightarrow>
        let adj_forms = get_adjective_forms w;
            (wt1, wi1) = (if nonempty_dict adj_forms \<and> wt = []
                          then (''adjective'', wi\<lparr>word_type := Some ''adjective''\<rparr>)
                          else (wt, wi))
        in if wt1 = ''adjective'' then (wt1, wi1\<lparr>forms := fill_forms (forms wi1) adj_forms\<rparr>)
           else (wt1, wi1))"

definition infer :: "string \<Rightarrow> bool \<Rightarrow> string \<times> word_info \<Rightarrow> string \<times> word_info" where
  "infer w is_irregular s = infer_adjective w (infer_noun w (infer_verb w is_irregular s))"

text \<open>
  The clean-up of lines 369-388. On a record whose \<open>word_type\<close> is \<open>None\<close>,
  \<open>word_info.get('word_type', '')\<close> is \<open>None\<close> (the key is there, so the default is not
  used) and \<open>.lower()\<close> raises \<open>AttributeError\<close>.
\<close>

definition prune :: "word_info \<Rightarrow> py_error + word_info" where
  "prune wi =
     (case word_type wi of
        None \<Rightarrow> Inl AttributeError
      | Some t \<Rightarrow>
          let wt = lower t in
          if wt = ''verb'' then
            Inr (wi\<lparr>forms := (forms wi)(comparative \<mapsto> None, superlative \<mapsto> None,
                                          plural \<mapsto> None)\<rparr>)
          else if wt = ''adjective'' then
            Inr (wi\<lparr>forms := (forms wi)(past_tense \<mapsto> None, past_participle \<mapsto> None,
                                          present_tense \<mapsto> None, plural \<mapsto> None)\<rparr>)
          else if wt = ''noun'' then
            Inr (wi\<lparr>forms := (forms wi)(past_tense \<mapsto> None, past_participle \<mapsto> None,
                                          present_tense \<mapsto> None, comparative \<mapsto> None,
                                          superlative \<mapsto> None)\<rparr>)
          else Inr wi)"

text \<open>
  The body of the loop for one word of \<open>words\<close> (a trimmed, non-blank line). With the
  empty dictionary every path through the body reads or writes \<open>word_info['forms']\<close>
  and raises \<open>KeyError\<close>. Line 328 is the same \<open>.get('word_type', '').lower()\<close> as in
  the clean-up.
\<close>

definition process_word :: "network \<Rightarrow> string \<Rightarrow> py_error + word_info" where
  "process_word net w =
     (case get_word_info net w of
        None \<Rightarrow> Inl KeyError
      | Some wi \<Rightarrow>
          (case word_type wi of
             None \<Rightarrow> Inl AttributeError
           | Some t \<Rightarrow>
               let wt = lower t;
                   is_irregular = (IRREGULAR_VERBS w \<noteq> None)
               in if wt = [] \<or> \<not> any_values (forms wi)
                  then prune (snd (infer w is_irregular (wt, wi)))
                  else prune wi))"

text \<open>
  Lines 331-367 on their own, as a function of the loop's \<open>word\<close> and of the state
  they work on: the table test of line 331 is made on \<open>word\<close> as the loop has it, and
  its result and \<open>word\<close> go to the three parts. This is the block that
  \<open>process_word\<close> runs when the gate of line 333 is open.
\<close>

definition inference_block :: "string \<Rightarrow> string \<times> word_info \<Rightarrow> string \<times> word_info" where
  "inference_block w s = (let is_irregular = (IRREGULAR_VERBS w \<noteq> None) in infer w is_irregular s)"

text \<open>
  The batch: \<open>words = [line.strip() for line in f if line.strip()]\<close>, then the loop,
  which an exception leaves at once.
\<close>

definition read_words :: "string list \<Rightarrow> string list" where
  "read_words lines = map strip (filter (\<lambda>l. strip l \<noteq> []) lines)"

fun process_loop :: "network \<Rightarrow> string list \<Rightarrow> word_info list \<Rightarrow> py_error + word_info list" where
  "process_loop net [] results = Inr results"
| "process_loop net (w # ws) results =
     (case process_word net w of
        Inl e \<Rightarrow> Inl e
      | Inr wi \<Rightarrow> process_loop net ws (results @ [wi]))"

definition process_words_from_file :: "network \<Rightarrow> string list \<Rightarrow> py_error + word_info list" where
  "process_words_from_file net lines = process_loop net (read_words lines) []"

section \<open>Some answers of the network\<close>

text \<open>Every request fails: the first \<open>session.get\<close> raises.\<close>

definition no_network :: network where
  "no_network = (\<lambda>w. \<lparr>defn = None, infl = Map.empty, page_past = [], page_participle = []\<rparr>)"

text \<open>The requests are answered, with nothing about the word (status 404).\<close>

definition not_found :: network where
  "not_found =
     (\<lambda>w. \<lparr>defn = Some (None, []), infl = Map.empty, page_past = [], page_participle = []\<rparr>)"

text \<open>
  The definition endpoint reports the part of speech \<open>t\<close> and one meaning; no forms
  are found.
\<close>

definition typed_only :: "string \<Rightarrow> network" where
  "typed_only t =
     (\<lambda>w. \<lparr>defn = Some (Some t, [''m'']), infl = Map.empty, page_past = [],
           page_participle = []\<rparr>)"

section \<open>Evaluation and basic facts\<close>

lemmas string_eval = strip_def lower_def lower_char_def is_space_def endswith_def

lemmas lookup_eval = get_word_info_def get_wiktionary_info_def get_woordenboek_info_def seed_def
  page_fill_def any_values_def forms_get_def IRREGULAR_VERBS_def

lemmas rules_eval = get_verb_forms_def get_noun_forms_def get_adjective_forms_def
  nonempty_dict_def fill_forms_def infer_def infer_verb_def infer_noun_def infer_adjective_def

lemmas pipeline_eval = process_word_def prune_def Let_def

lemma lower_Nil_iff: "lower s = [] \<longleftrightarrow> s = []"
  by (simp add: lower_def)

lemma prune_word_type: "prune x = Inr r \<Longrightarrow> word_type r = word_type x"
  by (auto simp: prune_def Let_def split: option.splits if_splits)

lemma prune_word: "prune x = Inr r \<Longrightarrow> word r = word x"
  by (auto simp: prune_def Let_def split: option.splits if_splits)

lemma infer_verb_word: "word (snd (infer_verb w irr s)) = word (snd s)"
  by (cases s) (simp add: infer_verb_def Let_def)

lemma infer_noun_word: "word (snd (infer_noun w s)) = word (snd s)"
  by (cases s) (simp add: infer_noun_def Let_def)

lemma infer_adjective_word: "word (snd (infer_adjective w s)) = word (snd s)"
  by (cases s) (simp add: infer_adjective_def Let_def)

lemma infer_word: "word (snd (infer w irr s)) = word (snd s)"
  by (simp add: infer_def infer_verb_word infer_noun_word infer_adjective_word)

lemma get_word_info_word: "get_word_info net w = Some wi \<Longrightarrow> word wi = lower (strip w)"
  by (auto simp: get_word_info_def Let_def seed_def get_woordenboek_info_def
      split: if_splits option.splits)

text \<open>Every record the loop body returns comes out of the clean-up.\<close>

lemma process_word_prune:
  assumes "process_word net w = Inr r"
  shows "\<exists>x. prune x = Inr r \<and> word x = lower (strip w)"
proof -
  from assms obtain wi t where wi: "get_word_info net w = Some wi" and t: "word_type wi = Some t"
    by (auto simp: process_word_def split: option.splits)
  show ?thesis
  proof (cases "lower t = [] \<or> \<not> any_values (forms wi)")
    case True
    with assms wi t have "prune (snd (infer w (IRREGULAR_VERBS w \<noteq> None) (lower t, wi))) = Inr r"
      by (simp add: process_word_def Let_def)
    moreover have "word (snd (infer w (IRREGULAR_VERBS w \<noteq> None) (lower t, wi))) = lower (strip w)"
      using wi by (simp add: infer_word get_word_info_word)
    ultimately show ?thesis by blast
  next
    case False
    with assms wi t have "prune wi = Inr r"
      by (simp add: process_word_def Let_def)
    with wi show ?thesis using get_word_info_word by blast
  qed
qed

lemma prune_forms:
  assumes "prune x = Inr r" and "word_type r = Some t"
  shows "(lower t = ''verb'' \<longrightarrow>
            forms r plural = Some None \<and> forms r comparative = Some None \<and>
            forms r superlative = Some None) \<and>
         (lower t = ''adjective'' \<longrightarrow>
            forms r past_tense = Some None \<and> forms r past_participle = Some None \<and>
            forms r present_tense = Some None \<and> forms r plural = Some None) \<and>
         (lower t = ''noun'' \<longrightarrow>
            forms r past_tense = Some None \<and> forms r past_participle = Some None \<and>
            forms r present_tense = Some None \<and> forms r comparative = Some None \<and>
            forms r superlative = Some None)"
  using assms by (auto simp: prune_def Let_def split: option.splits if_splits)

lemma process_word_word: "process_word net w = Inr r \<Longrightarrow> word r = lower (strip w)"
  using process_word_prune prune_word by fastforce

text \<open>Trimming a trimmed string changes nothing.\<close>

lemma dropWhile_rev_dropWhile:
  "t = [] \<or> \<not> P (hd t) \<Longrightarrow>
   dropWhile P (rev (dropWhile P (rev t))) = rev (dropWhile P (rev t))"
proof (induction t rule: rev_induct)
  case Nil
  show ?case by simp
next
  case (snoc x xs)
  show ?case
  proof (cases "P x")
    case True
    have "xs = [] \<or> \<not> P (hd xs)"
      using snoc.prems by (cases xs) auto
    with snoc.IH True show ?thesis by simp
  next
    case False
    with snoc.prems show ?thesis by (cases xs) auto
  qed
qed

lemma strip_strip: "strip (strip s) = strip s"
proof -
  define t where "t = dropWhile is_space s"
  have "t = [] \<or> \<not> is_space (hd t)"
    unfolding t_def using hd_dropWhile [of is_space s] by blast
  then have "dropWhile is_space (rev (dropWhile is_space (rev t))) =
      rev (dropWhile is_space (rev t))"
    by (rule dropWhile_rev_dropWhile)
  then show ?thesis
    by (simp add: strip_def t_def)
qed

lemma endswith_append: "endswith w suf \<longleftrightarrow> (\<exists>stem. w = stem @ suf)"
proof
  assume "endswith w suf"
  then have "w = take (length w - length suf) w @ suf"
    by (metis append_take_drop_id endswith_def)
  then show "\<exists>stem. w = stem @ suf" ..
next
  assume "\<exists>stem. w = stem @ suf"
  then show "endswith w suf" by (auto simp: endswith_def)
qed

lemma IRREGULAR_VERBS_nonempty:
  "IRREGULAR_VERBS w = Some (pt, pp) \<Longrightarrow> w \<noteq> [] \<and> pt \<noteq> [] \<and> pp \<noteq> []"
  unfolding IRREGULAR_VERBS_def
  by (drule map_of_SomeD) auto


section \<open>Category pruning\<close>

text \<open>
  Claim C5. In every record the pipeline returns, the slots that do not fit the record's
  type hold \<open>None\<close>: with the type \<open>verb\<close> (compared lower-cased, as the code does) the
  slots plural, comparative and superlative; with \<open>adjective\<close> the slots past_tense,
  past_participle, present_tense and plural; with \<open>noun\<close> the three verb slots and the
  two adjective slots. This holds for every word and every answer of the network.
\<close>

theorem pruned_slots_unset:
  assumes "process_word net w = Inr r" and "word_type r = Some t"
  shows "(lower t = ''verb'' \<longrightarrow>
            forms r plural = Some None \<and> forms r comparative = Some None \<and>
            forms r superlative = Some None) \<and>
         (lower t = ''adjective'' \<longrightarrow>
            forms r past_tense = Some None \<and> forms r past_participle = Some None \<and>
            forms r present_tense = Some None \<and> forms r plural = Some None) \<and>
         (lower t = ''noun'' \<longrightarrow>
            forms r past_tense = Some None \<and> forms r past_participle = Some None \<and>
            forms r present_tense = Some None \<and> forms r comparative = Some None \<and>
            forms r superlative = Some None)"
proof -
  from assms(1) obtain x where "prune x = Inr r"
    using process_word_prune by blast
  then show ?thesis using assms(2) by (rule prune_forms)
qed

theorem pruned_slots_unset_witness:
  "(\<exists>r. process_word (typed_only ''Verb'') ''werken'' = Inr r \<and> word_type r = Some ''Verb'' \<and>
        forms r plural = Some None \<and> forms r comparative = Some None \<and>
        forms r superlative = Some None) \<and>
   (\<exists>r. process_word (typed_only ''Adjective'') ''mooi'' = Inr r \<and>
        word_type r = Some ''Adjective'' \<and>
        forms r past_tense = Some None \<and> forms r past_participle = Some None \<and>
        forms r present_tense = Some None \<and> forms r plural = Some None) \<and>
   (\<exists>r. process_word (typed_only ''Noun'') ''tafel'' = Inr r \<and> word_type r = Some ''Noun'' \<and>
        forms r past_tense = Some None \<and> forms r past_participle = Some None \<and>
        forms r present_tense = Some None \<and> forms r comparative = Some None \<and>
        forms r superlative = Some None)"
proof -
  obtain rv where rv: "process_word (typed_only ''Verb'') ''werken'' = Inr rv"
      "word_type rv = Some ''Verb''"
    by (simp add: typed_only_def string_eval lookup_eval rules_eval pipeline_eval)
  obtain ra where ra: "process_word (typed_only ''Adjective'') ''mooi'' = Inr ra"
      "word_type ra = Some ''Adjective''"
    by (simp add: typed_only_def string_eval lookup_eval rules_eval pipeline_eval)
  obtain rn where rn: "process_word (typed_only ''Noun'') ''tafel'' = Inr rn"
      "word_type rn = Some ''Noun''"
    by (simp add: typed_only_def string_eval lookup_eval rules_eval pipeline_eval)
  have "lower ''Verb'' = ''verb''" "lower ''Adjective'' = ''adjective''"
      "lower ''Noun'' = ''noun''"
    by (simp_all add: string_eval)
  with pruned_slots_unset [OF rv] pruned_slots_unset [OF ra] pruned_slots_unset [OF rn] rv ra rn
  show ?thesis by simp
qed

text \<open>
  Claim C7. Category pruning is idempotent: pruning the record that pruning returns gives
  that record again; on a record whose type is \<open>None\<close> both raise.
\<close>

theorem prune_idempotent:
  "(case prune wi of Inl e \<Rightarrow> Inl e | Inr wi' \<Rightarrow> prune wi') = prune wi"
  by (auto simp: prune_def Let_def split: option.splits)

theorem prune_idempotent_witness:
  "\<exists>r. prune \<lparr>word = ''huis'', meanings = [], forms = [plural \<mapsto> Some ''huizen''],
                 word_type = Some ''Verb''\<rparr> = Inr r \<and>
        forms r plural = Some None \<and> prune r = Inr r"
proof -
  obtain r where r: "prune \<lparr>word = ''huis'', meanings = [], forms = [plural \<mapsto> Some ''huizen''],
                 word_type = Some ''Verb''\<rparr> = Inr r" "forms r plural = Some None"
    by (simp add: prune_def string_eval)
  with prune_idempotent [of "\<lparr>word = ''huis'', meanings = [],
      forms = [plural \<mapsto> Some ''huizen''], word_type = Some ''Verb''\<rparr>"]
  show ?thesis by simp
qed

section \<open>The verb rule\<close>

text \<open>
  Claim C6, as amended. \<open>_get_verb_forms\<close> yields forms exactly for a word that is a
  non-empty stem followed by \<open>en\<close>. The past tense is the stem with \<open>te\<close> and the
  participle \<open>ge\<close>, the stem and \<open>t\<close> when the stem's last character, lower-cased, is
  one of p, t, k, f, s, x, c; otherwise they are the stem with \<open>de\<close> and \<open>ge\<close>, the stem
  and \<open>d\<close>. Every other word yields the empty dictionary.
\<close>

theorem get_verb_forms_rule:
  "(stem \<noteq> [] \<longrightarrow>
      get_verb_forms (stem @ ''en'') =
        (if lower_char (last stem) \<in> set ''ptkfsxc''
         then [past_tense \<mapsto> stem @ ''te'', past_participle \<mapsto> ''ge'' @ stem @ ''t'']
         else [past_tense \<mapsto> stem @ ''de'', past_participle \<mapsto> ''ge'' @ stem @ ''d''])) \<and>
   ((\<nexists>s. s \<noteq> [] \<and> w = s @ ''en'') \<longrightarrow> get_verb_forms w = Map.empty)"
proof (intro conjI impI)
  assume "stem \<noteq> []"
  moreover have "endswith (stem @ ''en'') ''en''"
    by (simp add: endswith_def)
  ultimately show "get_verb_forms (stem @ ''en'') =
        (if lower_char (last stem) \<in> set ''ptkfsxc''
         then [past_tense \<mapsto> stem @ ''te'', past_participle \<mapsto> ''ge'' @ stem @ ''t'']
         else [past_tense \<mapsto> stem @ ''de'', past_participle \<mapsto> ''ge'' @ stem @ ''d''])"
    by (simp add: get_verb_forms_def Let_def)
next
  assume no: "\<nexists>s. s \<noteq> [] \<and> w = s @ ''en''"
  show "get_verb_forms w = Map.empty"
  proof (cases "endswith w ''en''")
    case True
    then obtain s where s: "w = s @ ''en''"
      by (auto simp: endswith_append)
    with no have "s = []" by blast
    with s show ?thesis by (simp add: get_verb_forms_def endswith_def)
  next
    case False
    then show ?thesis by (simp add: get_verb_forms_def)
  qed
qed

theorem get_verb_forms_rule_witness:
  "get_verb_forms ''werken'' = [past_tense \<mapsto> ''werkte'', past_participle \<mapsto> ''gewerkt''] \<and>
   get_verb_forms ''noemen'' = [past_tense \<mapsto> ''noemde'', past_participle \<mapsto> ''genoemd''] \<and>
   get_verb_forms ''werKen'' = [past_tense \<mapsto> ''werKte'', past_participle \<mapsto> ''gewerKt''] \<and>
   get_verb_forms ''tafel'' = Map.empty \<and>
   get_verb_forms ''en'' = Map.empty"
proof -
  have a: "\<nexists>s. s \<noteq> [] \<and> ''tafel'' = s @ ''en''"
    by (auto simp: append_eq_Cons_conv Cons_eq_append_conv)
  have b: "\<nexists>s. s \<noteq> [] \<and> ''en'' = s @ ''en''"
    by (auto simp: append_eq_Cons_conv Cons_eq_append_conv)
  show ?thesis
    using get_verb_forms_rule [of "''werk''"] get_verb_forms_rule [of "''noem''"]
      get_verb_forms_rule [of "''werK''"]
      get_verb_forms_rule [of _ "''tafel''"] get_verb_forms_rule [of _ "''en''"] a b
    by (simp add: lower_char_def)
qed

text \<open>
  The claim as written tests the stem's last character itself. The stem of \<open>werKen\<close>
  ends in \<open>K\<close>, which is not among the seven letters, and the forms still end in
  \<open>te\<close> and \<open>t\<close>: line 253 lower-cases the character before the test.
\<close>

theorem get_verb_forms_upper_counterexample:
  "get_verb_forms ''werKen'' = [past_tense \<mapsto> ''werKte'', past_participle \<mapsto> ''gewerKt''] \<and>
   last ''werK'' \<notin> set ''ptkfsxc''"
  by (simp add: get_verb_forms_def endswith_def lower_char_def Let_def)

section \<open>Irregular verbs\<close>

lemma get_wiktionary_info_irregular:
  assumes irr: "IRREGULAR_VERBS w = Some (pt, pp)" and d: "defn (net w) = Some (t, ms)"
  shows "\<exists>f. get_wiktionary_info net w =
           Some \<lparr>wk_meanings = ms, wk_forms = f,
                 wk_word_type = Some (case t of None \<Rightarrow> ''verb''
                                      | Some s \<Rightarrow> if s = [] then ''verb'' else s)\<rparr> \<and>
             f past_tense = Some (Some pt) \<and> f past_participle = Some (Some pp)"
proof -
  from irr have ne: "pt \<noteq> []" "pp \<noteq> []"
    using IRREGULAR_VERBS_nonempty by blast+
  show ?thesis
    using irr d ne
    by (cases t)
      (simp_all add: get_wiktionary_info_def Let_def page_fill_def forms_get_def any_values_def)
qed

text \<open>
  Claim C1, as amended. Let the trimmed, lower-cased word be in the table of irregular
  verbs with the pair \<open>(pt, pp)\<close>, and let the definition request be answered, whatever
  type \<open>t\<close>, meanings and forms the network reports. Then the pipeline returns a record.
  Its type is \<open>t\<close> when \<open>t\<close> is a non-empty string and \<open>verb\<close> otherwise. Its past_tense
  and past_participle are \<open>pt\<close> and \<open>pp\<close>, unless the type, lower-cased, is \<open>noun\<close> or
  \<open>adjective\<close>: then the clean-up stores \<open>None\<close> in both.
\<close>

theorem irregular_forms_kept:
  assumes irr: "IRREGULAR_VERBS (lower (strip w)) = Some (pt, pp)"
    and d: "defn (net (lower (strip w))) = Some (t, ms)"
    and ft: "ft = (case t of None \<Rightarrow> ''verb'' | Some s \<Rightarrow> if s = [] then ''verb'' else s)"
  shows "\<exists>r. process_word net w = Inr r \<and> word_type r = Some ft \<and>
             forms r past_tense =
               (if lower ft = ''noun'' \<or> lower ft = ''adjective'' then Some None
                else Some (Some pt)) \<and>
             forms r past_participle =
               (if lower ft = ''noun'' \<or> lower ft = ''adjective'' then Some None
                else Some (Some pp))"
proof -
  from irr have ne: "lower (strip w) \<noteq> []" "pt \<noteq> []" "pp \<noteq> []"
    using IRREGULAR_VERBS_nonempty by blast+
  from get_wiktionary_info_irregular [of "lower (strip w)" pt pp net t ms] irr d ft
  obtain f where
    f: "get_wiktionary_info net (lower (strip w)) =
          Some \<lparr>wk_meanings = ms, wk_forms = f, wk_word_type = Some ft\<rparr>"
      "f past_tense = Some (Some pt)" "f past_participle = Some (Some pp)"
    by auto
  define wi where "wi = \<lparr>word = lower (strip w), meanings = ms, forms = f, word_type = Some ft\<rparr>"
  have gwi: "get_word_info net w = Some wi"
    using ne f by (simp add: get_word_info_def Let_def seed_def get_woordenboek_info_def wi_def)
  have ftne: "lower ft \<noteq> []"
    using ft by (cases t) (auto simp: lower_def)
  have av: "any_values (forms wi)"
    using f ne by (simp add: any_values_def forms_get_def wi_def)
  have pw: "process_word net w = prune wi"
    using gwi ftne av by (simp add: process_word_def Let_def wi_def)
  show ?thesis
    unfolding pw using f by (simp add: prune_def Let_def wi_def)
qed

theorem irregular_forms_kept_witness:
  "IRREGULAR_VERBS (lower (strip ''lezen'')) = Some (''las'', ''gelezen'') \<and>
   (\<exists>r. process_word not_found ''lezen'' = Inr r \<and> word_type r = Some ''verb'' \<and>
        forms r past_tense = Some (Some ''las'') \<and>
        forms r past_participle = Some (Some ''gelezen'')) \<and>
   (\<exists>r. process_word (typed_only ''Noun'') '' Eten'' = Inr r \<and> word_type r = Some ''Noun'' \<and>
        forms r past_tense = Some None \<and> forms r past_participle = Some None)"
proof -
  have a: "IRREGULAR_VERBS (lower (strip ''lezen'')) = Some (''las'', ''gelezen'')"
    by (simp add: string_eval IRREGULAR_VERBS_def)
  have b: "defn (not_found (lower (strip ''lezen''))) = Some (None, [])"
    by (simp add: not_found_def)
  have c: "IRREGULAR_VERBS (lower (strip '' Eten'')) = Some (''at'', ''gegeten'')"
    by (simp add: string_eval IRREGULAR_VERBS_def)
  have d: "defn (typed_only ''Noun'' (lower (strip '' Eten''))) = Some (Some ''Noun'', [''m''])"
    by (simp add: typed_only_def)
  have e: "lower ''Noun'' = ''noun''" "lower ''verb'' = ''verb''"
    by (simp_all add: string_eval)
  show ?thesis
    using irregular_forms_kept [of "''lezen''" "''las''" "''gelezen''" not_found None "[]",
        OF a b refl]
      irregular_forms_kept [of "'' Eten''" "''at''" "''gegeten''" "typed_only ''Noun''"
        "Some ''Noun''" "[''m'']", OF c d refl] a e
    by simp
qed

text \<open>
  The claim as written promises the table's pair whatever the collaborator returns.
  \<open>eten\<close> is in the table; when the collaborator reports it as a noun, the final
  record has \<open>None\<close> in both slots.
\<close>

theorem irregular_forms_pruned_counterexample:
  "IRREGULAR_VERBS ''eten'' = Some (''at'', ''gegeten'') \<and>
   process_word (typed_only ''Noun'') ''eten'' =
     Inr \<lparr>word = ''eten'', meanings = [''m''],
          forms = [past_tense \<mapsto> None, past_participle \<mapsto> None, present_tense \<mapsto> None,
                   comparative \<mapsto> None, superlative \<mapsto> None],
          word_type = Some ''Noun''\<rparr>"
  by (simp add: typed_only_def string_eval lookup_eval rules_eval pipeline_eval fun_eq_iff)

section \<open>The type set by inference\<close>

lemma get_noun_forms_plural: "get_noun_forms w plural \<noteq> None"
  by (simp add: get_noun_forms_def)

lemma infer_noun_type_set: "fst (infer_noun w s) \<noteq> []"
  by (cases s) (simp add: infer_noun_def Let_def nonempty_dict_def get_noun_forms_plural)

lemma infer_adjective_word_type:
  "fst s \<noteq> [] \<Longrightarrow> word_type (snd (infer_adjective w s)) = word_type (snd s)"
  by (cases s) (simp add: infer_adjective_def Let_def)

lemma infer_verb_word_type:
  "word_type (snd (infer_verb w irr (wt, wi))) \<in> {word_type wi, Some ''verb''}"
  by (simp add: infer_verb_def Let_def)

lemma infer_noun_word_type:
  "word_type (snd (infer_noun w s)) \<in> {word_type (snd s), Some ''noun''}"
  by (cases s) (simp add: infer_noun_def Let_def)

lemma infer_word_type:
  "word_type (snd (infer w irr (wt, wi))) \<in> {word_type wi, Some ''verb'', Some ''noun''}"
proof -
  have "word_type (snd (infer w irr (wt, wi))) =
      word_type (snd (infer_noun w (infer_verb w irr (wt, wi))))"
    by (simp add: infer_def infer_adjective_word_type infer_noun_type_set)
  then show ?thesis
    using infer_noun_word_type [of w "infer_verb w irr (wt, wi)"]
      infer_verb_word_type [of w irr wt wi]
    by auto
qed

lemma process_word_type:
  assumes "process_word net w = Inr r"
  shows "\<exists>wi. get_word_info net w = Some wi \<and>
           word_type r \<in> {word_type wi, Some ''verb'', Some ''noun''}"
proof -
  from assms obtain wi t where wi: "get_word_info net w = Some wi" and t: "word_type wi = Some t"
    by (auto simp: process_word_def split: option.splits)
  show ?thesis
  proof (cases "lower t = [] \<or> \<not> any_values (forms wi)")
    case True
    with assms wi t have "prune (snd (infer w (IRREGULAR_VERBS w \<noteq> None) (lower t, wi))) = Inr r"
      by (simp add: process_word_def Let_def)
    then have "word_type r = word_type (snd (infer w (IRREGULAR_VERBS w \<noteq> None) (lower t, wi)))"
      by (rule prune_word_type)
    with wi show ?thesis
      using infer_word_type [of w "IRREGULAR_VERBS w \<noteq> None" "lower t" wi] by simp
  next
    case False
    with assms wi t have "prune wi = Inr r"
      by (simp add: process_word_def Let_def)
    then have "word_type r = word_type wi" by (rule prune_word_type)
    with wi show ?thesis by simp
  qed
qed

lemma get_word_info_type:
  assumes "get_word_info net w = Some wi" and "word_type wi = Some t" and "t \<noteq> ''verb''"
  shows "\<exists>ms. defn (net (lower (strip w))) = Some (Some t, ms)"
  using assms
  by (auto simp: get_word_info_def get_wiktionary_info_def get_woordenboek_info_def seed_def
      Let_def split: if_splits option.splits prod.splits)

text \<open>
  Claim C9. The inference block never sets the type to \<open>adjective\<close>.
  \<open>_get_noun_forms\<close> gives a plural for every word, so after the noun part the local
  \<open>word_type\<close> is never empty, and the adjective part leaves the record's type as the
  noun part left it. The type after the whole block is the type before it, \<open>verb\<close> or
  \<open>noun\<close>. A final record whose type is \<open>adjective\<close> (in any letter case) has it from
  the collaborator's definition data.
\<close>

theorem inference_never_adjective:
  "get_noun_forms w plural \<noteq> None \<and>
   fst (infer_noun w s) \<noteq> [] \<and>
   word_type (snd (infer_adjective w (infer_noun w s))) = word_type (snd (infer_noun w s)) \<and>
   word_type (snd (infer w irr (wt, wi))) \<in> {word_type wi, Some ''verb'', Some ''noun''} \<and>
   (process_word net w = Inr r \<and> word_type r = Some t \<and> lower t = ''adjective'' \<longrightarrow>
      (\<exists>ms. defn (net (lower (strip w))) = Some (Some t, ms)))"
proof (intro conjI impI)
  show "get_noun_forms w plural \<noteq> None" by (rule get_noun_forms_plural)
  show "fst (infer_noun w s) \<noteq> []" by (rule infer_noun_type_set)
  show "word_type (snd (infer_adjective w (infer_noun w s))) = word_type (snd (infer_noun w s))"
    by (simp add: infer_adjective_word_type infer_noun_type_set)
  show "word_type (snd (infer w irr (wt, wi))) \<in> {word_type wi, Some ''verb'', Some ''noun''}"
    by (rule infer_word_type)
next
  assume a: "process_word net w = Inr r \<and> word_type r = Some t \<and> lower t = ''adjective''"
  then obtain wi0 where wi0: "get_word_info net w = Some wi0"
      "word_type r \<in> {word_type wi0, Some ''verb'', Some ''noun''}"
    using process_word_type by blast
  from a have "t \<noteq> ''verb''" "t \<noteq> ''noun''"
    by (auto simp: string_eval)
  with a wi0 have "word_type wi0 = Some t" by auto
  with wi0 \<open>t \<noteq> ''verb''\<close> show "\<exists>ms. defn (net (lower (strip w))) = Some (Some t, ms)"
    using get_word_info_type by blast
qed

theorem inference_never_adjective_witness:
  "(\<exists>r. process_word (typed_only ''Adjective'') ''mooi'' = Inr r \<and>
        word_type r = Some ''Adjective'') \<and>
   (\<exists>ms. defn (typed_only ''Adjective'' (lower (strip ''mooi''))) = Some (Some ''Adjective'', ms)) \<and>
   (\<exists>r. process_word (typed_only []) ''mooi'' = Inr r \<and> word_type r = Some ''noun'')"
proof -
  obtain r where r: "process_word (typed_only ''Adjective'') ''mooi'' = Inr r"
      "word_type r = Some ''Adjective''"
    by (simp add: typed_only_def string_eval lookup_eval rules_eval pipeline_eval)
  have l: "lower ''Adjective'' = ''adjective''"
    by (simp add: string_eval)
  have n: "\<exists>r. process_word (typed_only []) ''mooi'' = Inr r \<and> word_type r = Some ''noun''"
    by (simp add: typed_only_def string_eval lookup_eval rules_eval pipeline_eval)
  from inference_never_adjective
    [of "''mooi''" _ _ _ _ "typed_only ''Adjective''" r "''Adjective''"] r l
  have "\<exists>ms. defn (typed_only ''Adjective'' (lower (strip ''mooi''))) =
      Some (Some ''Adjective'', ms)"
    by blast
  with r n show ?thesis by blast
qed

section \<open>The record's key and the case of the input\<close>

lemma process_loop_words:
  "process_loop net ws acc = Inr rs \<Longrightarrow>
   map word rs = map word acc @ map (\<lambda>w. lower (strip w)) ws"
proof (induction ws arbitrary: acc)
  case Nil
  then show ?case by simp
next
  case (Cons w ws)
  from Cons.prems obtain r where r: "process_word net w = Inr r"
    and rest: "process_loop net ws (acc @ [r]) = Inr rs"
    by (auto split: sum.splits)
  from Cons.IH [OF rest] process_word_word [OF r] show ?case by simp
qed

lemma process_words_from_file_words:
  assumes "process_words_from_file net lines = Inr rs"
  shows "map word rs = map (\<lambda>l. lower (strip l)) (filter (\<lambda>l. strip l \<noteq> []) lines)"
  using process_loop_words [of net "read_words lines" "[]" rs] assms
  by (simp add: process_words_from_file_def read_words_def strip_strip comp_def)

text \<open>
  The block of lines 331-367 is what the loop body runs behind the gate.
\<close>

lemma process_word_inference_block:
  "process_word net w =
     (case get_word_info net w of
        None \<Rightarrow> Inl KeyError
      | Some wi \<Rightarrow>
          (case word_type wi of
             None \<Rightarrow> Inl AttributeError
           | Some t \<Rightarrow>
               if lower t = [] \<or> \<not> any_values (forms wi)
               then prune (snd (inference_block w (lower t, wi)))
               else prune wi))"
  by (simp add: process_word_def inference_block_def Let_def split: option.splits)

lemma lower_char_small:
  "lower_char CHR ''a'' = CHR ''a''"
  "lower_char CHR ''b'' = CHR ''b''"
  "lower_char CHR ''c'' = CHR ''c''"
  "lower_char CHR ''d'' = CHR ''d''"
  "lower_char CHR ''e'' = CHR ''e''"
  "lower_char CHR ''f'' = CHR ''f''"
  "lower_char CHR ''g'' = CHR ''g''"
  "lower_char CHR ''h'' = CHR ''h''"
  "lower_char CHR ''i'' = CHR ''i''"
  "lower_char CHR ''j'' = CHR ''j''"
  "lower_char CHR ''k'' = CHR ''k''"
  "lower_char CHR ''l'' = CHR ''l''"
  "lower_char CHR ''m'' = CHR ''m''"
  "lower_char CHR ''n'' = CHR ''n''"
  "lower_char CHR ''o'' = CHR ''o''"
  "lower_char CHR ''p'' = CHR ''p''"
  "lower_char CHR ''q'' = CHR ''q''"
  "lower_char CHR ''r'' = CHR ''r''"
  "lower_char CHR ''s'' = CHR ''s''"
  "lower_char CHR ''t'' = CHR ''t''"
  "lower_char CHR ''u'' = CHR ''u''"
  "lower_char CHR ''v'' = CHR ''v''"
  "lower_char CHR ''w'' = CHR ''w''"
  "lower_char CHR ''x'' = CHR ''x''"
  "lower_char CHR ''y'' = CHR ''y''"
  "lower_char CHR ''z'' = CHR ''z''"
  by (simp_all add: lower_char_def)

lemma IRREGULAR_VERBS_lower: "IRREGULAR_VERBS u = Some p \<Longrightarrow> lower u = u"
  unfolding IRREGULAR_VERBS_def
  by (drule map_of_SomeD) (auto simp: lower_def lower_char_small)

lemma get_word_info_typed_only:
  assumes "strip l \<noteq> []" and "IRREGULAR_VERBS (lower (strip l)) = None"
  shows "get_word_info (typed_only t) (strip l) =
           Some \<lparr>word = lower (strip l), meanings = [''m''], forms = Map.empty,
                 word_type = Some t\<rparr>"
  using assms
  by (simp add: get_word_info_def get_wiktionary_info_def get_woordenboek_info_def seed_def
      typed_only_def page_fill_def forms_get_def any_values_def Let_def strip_strip lower_def)

lemma fill_forms_empty: "fill_forms Map.empty new = (\<lambda>k. map_option Some (new k))"
  by (auto simp: fill_forms_def forms_get_def fun_eq_iff split: option.splits)

lemma get_verb_forms_usable:
  "nonempty_dict (get_verb_forms w) \<and> any_values (\<lambda>k. map_option Some (get_verb_forms w k)) \<longleftrightarrow>
   get_verb_forms w \<noteq> Map.empty"
  by (auto simp: get_verb_forms_def nonempty_dict_def any_values_def forms_get_def Let_def
      fun_eq_iff)

lemma infer_verb_typed:
  "infer_verb w False (''verb'', \<lparr>word = n, meanings = ms, forms = Map.empty, word_type = ty\<rparr>) =
     (''verb'', \<lparr>word = n, meanings = ms, forms = (\<lambda>k. map_option Some (get_verb_forms w k)),
               word_type = ty\<rparr>)"
proof (cases "get_verb_forms w = Map.empty")
  case True
  then show ?thesis
    by (simp add: infer_verb_def nonempty_dict_def)
next
  case False
  then show ?thesis
    using get_verb_forms_usable [of w] by (simp add: infer_verb_def fill_forms_empty)
qed

lemma infer_typed_verb:
  "infer w False (''verb'', \<lparr>word = n, meanings = ms, forms = Map.empty, word_type = ty\<rparr>) =
     (''verb'', \<lparr>word = n, meanings = ms, forms = (\<lambda>k. map_option Some (get_verb_forms w k)),
               word_type = ty\<rparr>)"
  by (simp add: infer_def infer_verb_typed infer_noun_def infer_adjective_def Let_def)

lemma infer_typed_noun:
  "infer w False (''noun'', \<lparr>word = n, meanings = ms, forms = Map.empty, word_type = ty\<rparr>) =
     (''noun'', \<lparr>word = n, meanings = ms, forms = [plural \<mapsto> get_noun_forms w plural],
               word_type = ty\<rparr>)"
  by (simp add: infer_def infer_verb_def infer_noun_def infer_adjective_def Let_def
      nonempty_dict_def forms_get_def get_noun_forms_plural)

lemma infer_typed_adjective:
  "infer w False (''adjective'', \<lparr>word = n, meanings = ms, forms = Map.empty, word_type = ty\<rparr>) =
     (''adjective'', \<lparr>word = n, meanings = ms,
                     forms = (\<lambda>k. map_option Some (get_adjective_forms w k)), word_type = ty\<rparr>)"
  by (simp add: infer_def infer_verb_def infer_noun_def infer_adjective_def Let_def
      fill_forms_empty)

lemma prune_total: "word_type x \<noteq> None \<Longrightarrow> \<exists>r. prune x = Inr r"
  by (auto simp: prune_def Let_def)

lemma process_word_typed_only:
  assumes ne: "strip l \<noteq> []" and irr: "IRREGULAR_VERBS (lower (strip l)) = None"
  shows "\<exists>r. process_word (typed_only t) (strip l) = Inr r \<and> word r = lower (strip l) \<and>
          (lower t = ''verb'' \<longrightarrow>
             forms r past_tense = map_option Some (get_verb_forms (strip l) past_tense) \<and>
             forms r past_participle = map_option Some (get_verb_forms (strip l) past_participle)) \<and>
          (lower t = ''noun'' \<longrightarrow> forms r plural = Some (get_noun_forms (strip l) plural)) \<and>
          (lower t = ''adjective'' \<longrightarrow>
             forms r comparative = map_option Some (get_adjective_forms (strip l) comparative) \<and>
             forms r superlative = map_option Some (get_adjective_forms (strip l) superlative))"
proof -
  have raw: "IRREGULAR_VERBS (strip l) = None"
  proof (cases "IRREGULAR_VERBS (strip l)")
    case None
    then show ?thesis .
  next
    case (Some p)
    then have "lower (strip l) = strip l" by (rule IRREGULAR_VERBS_lower)
    with Some irr show ?thesis by simp
  qed
  define wi where "wi = \<lparr>word = lower (strip l), meanings = [''m''], forms = Map.empty,
      word_type = Some t\<rparr>"
  have pw: "process_word (typed_only t) (strip l) = prune (snd (infer (strip l) False (lower t, wi)))"
    using get_word_info_typed_only [OF ne irr, of t] raw
    by (simp add: process_word_def Let_def wi_def any_values_def forms_get_def)
  have "word_type (snd (infer (strip l) False (lower t, wi))) \<noteq> None"
    using infer_word_type [of "strip l" False "lower t" wi] by (auto simp: wi_def)
  then obtain r where r: "prune (snd (infer (strip l) False (lower t, wi))) = Inr r"
    using prune_total by blast
  have w: "word r = lower (strip l)"
    using prune_word [OF r] by (simp add: infer_word wi_def)
  have v: "lower t = ''verb'' \<Longrightarrow>
             forms r past_tense = map_option Some (get_verb_forms (strip l) past_tense) \<and>
             forms r past_participle = map_option Some (get_verb_forms (strip l) past_participle)"
    using r by (auto simp: wi_def infer_typed_verb prune_def Let_def)
  have n: "lower t = ''noun'' \<Longrightarrow> forms r plural = Some (get_noun_forms (strip l) plural)"
    using r by (auto simp: wi_def infer_typed_noun prune_def Let_def)
  have a: "lower t = ''adjective'' \<Longrightarrow>
             forms r comparative = map_option Some (get_adjective_forms (strip l) comparative) \<and>
             forms r superlative = map_option Some (get_adjective_forms (strip l) superlative)"
    using r by (auto simp: wi_def infer_typed_adjective prune_def Let_def)
  from pw r w v n a show ?thesis by auto
qed

lemma get_word_info_normalised:
  "lower (strip w') = lower (strip w) \<Longrightarrow> get_word_info net w' = get_word_info net w"
  by (simp add: get_word_info_def)

lemma irregular_gate_closed:
  assumes irr: "IRREGULAR_VERBS (lower (strip w)) = Some p"
    and wi: "get_word_info net w = Some wi" and t: "word_type wi = Some t"
  shows "lower t \<noteq> [] \<and> any_values (forms wi)"
proof (cases "defn (net (lower (strip w)))")
  case None
  then have "get_wiktionary_info net (lower (strip w)) = None"
    by (simp add: get_wiktionary_info_def)
  with wi t show ?thesis
    by (auto simp: get_word_info_def get_woordenboek_info_def seed_def Let_def split: if_splits)
next
  case (Some d)
  obtain pt pp where p: "p = (pt, pp)" by (cases p)
  obtain t0 ms where d: "d = (t0, ms)" by (cases d)
  from irr p have ne: "pt \<noteq> []" using IRREGULAR_VERBS_nonempty by blast
  from get_wiktionary_info_irregular [of "lower (strip w)" pt pp net t0 ms] irr p Some d
  obtain f where f: "get_wiktionary_info net (lower (strip w)) =
      Some \<lparr>wk_meanings = ms, wk_forms = f,
            wk_word_type = Some (case t0 of None \<Rightarrow> ''verb''
                                 | Some s \<Rightarrow> if s = [] then ''verb'' else s)\<rparr>"
    "f past_tense = Some (Some pt)"
    by auto
  from wi f have "forms wi = f"
      "word_type wi = Some (case t0 of None \<Rightarrow> ''verb'' | Some s \<Rightarrow> if s = [] then ''verb'' else s)"
    by (auto simp: get_word_info_def get_woordenboek_info_def seed_def Let_def split: if_splits)
  with t f ne show ?thesis
    by (cases t0) (auto simp: any_values_def forms_get_def lower_def split: if_splits)
qed

lemma process_word_irregular:
  assumes "IRREGULAR_VERBS (lower (strip w)) = Some p"
  shows "process_word net w =
     (case get_word_info net w of
        None \<Rightarrow> Inl KeyError
      | Some wi \<Rightarrow> (case word_type wi of None \<Rightarrow> Inl AttributeError | Some t \<Rightarrow> prune wi))"
  using irregular_gate_closed [OF assms, of net]
  by (auto simp: process_word_def Let_def split: option.splits)

lemma process_word_irregular_case:
  assumes "IRREGULAR_VERBS (lower (strip w)) \<noteq> None" and "lower (strip w') = lower (strip w)"
  shows "process_word net w' = process_word net w"
proof -
  from assms obtain p where p: "IRREGULAR_VERBS (lower (strip w)) = Some p"
      "IRREGULAR_VERBS (lower (strip w')) = Some p"
    by auto
  show ?thesis
    using process_word_irregular [OF p(1), of net] process_word_irregular [OF p(2), of net]
      get_word_info_normalised [OF assms(2), of net]
    by simp
qed

text \<open>
  Claim C10. The \<open>word\<close> of the record made for a line is the line trimmed and
  lower-cased; for a batch that runs to its end, the records' words are the trimmed,
  lower-cased non-blank lines in their order. The rules get the trimmed line as it is:
  for a line outside the table, when the collaborator reports only a type and a
  meaning, the verb, noun or adjective forms of the final record are those of
  \<open>_get_verb_forms\<close>, \<open>_get_noun_forms\<close> or \<open>_get_adjective_forms\<close> at the trimmed line,
  not at its lower-cased form, so \<open>werken\<close> and \<open>WERKEN\<close> end in records with the same
  \<open>word\<close> and different forms. The table test of line 331 is made on the trimmed line
  too: on the same state the block treats \<open>Lezen\<close> as a regular verb and \<open>lezen\<close> as an
  irregular one. For a line whose lower-cased form is in the table the gate is closed,
  so there the final record does not depend on the letter case of the line.
\<close>

theorem record_word_normalised:
  "(process_word net (strip l) = Inr r \<longrightarrow> word r = lower (strip l)) \<and>
   (process_words_from_file net lines = Inr rs \<longrightarrow>
      map word rs = map (\<lambda>l. lower (strip l)) (filter (\<lambda>l. strip l \<noteq> []) lines)) \<and>
   (strip l \<noteq> [] \<and> IRREGULAR_VERBS (lower (strip l)) = None \<longrightarrow>
      (\<exists>r'. process_word (typed_only t) (strip l) = Inr r' \<and> word r' = lower (strip l) \<and>
         (lower t = ''verb'' \<longrightarrow>
            forms r' past_tense = map_option Some (get_verb_forms (strip l) past_tense) \<and>
            forms r' past_participle =
              map_option Some (get_verb_forms (strip l) past_participle)) \<and>
         (lower t = ''noun'' \<longrightarrow> forms r' plural = Some (get_noun_forms (strip l) plural)) \<and>
         (lower t = ''adjective'' \<longrightarrow>
            forms r' comparative = map_option Some (get_adjective_forms (strip l) comparative) \<and>
            forms r' superlative =
              map_option Some (get_adjective_forms (strip l) superlative)))) \<and>
   inference_block ''Lezen''
       ([], \<lparr>word = ''lezen'', meanings = [], forms = Map.empty, word_type = Some []\<rparr>) =
     (''verb'', \<lparr>word = ''lezen'', meanings = [],
               forms = [past_tense \<mapsto> Some ''Lezde'', past_participle \<mapsto> Some ''geLezd''],
               word_type = Some ''verb''\<rparr>) \<and>
   inference_block ''lezen''
       ([], \<lparr>word = ''lezen'', meanings = [], forms = Map.empty, word_type = Some []\<rparr>) =
     (''verb'', \<lparr>word = ''lezen'', meanings = [], forms = Map.empty,
               word_type = Some ''verb''\<rparr>) \<and>
   (IRREGULAR_VERBS (lower (strip l)) \<noteq> None \<and> lower (strip l') = lower (strip l) \<longrightarrow>
      process_word net (strip l') = process_word net (strip l)) \<and>
   lower (strip ''WERKEN'') = lower (strip ''werken'') \<and>
   process_word (typed_only ''Verb'') ''werken'' =
     Inr \<lparr>word = ''werken'', meanings = [''m''],
          forms = [past_tense \<mapsto> Some ''werkte'', past_participle \<mapsto> Some ''gewerkt'',
                   comparative \<mapsto> None, superlative \<mapsto> None, plural \<mapsto> None],
          word_type = Some ''Verb''\<rparr> \<and>
   process_word (typed_only ''Verb'') ''WERKEN'' =
     Inr \<lparr>word = ''werken'', meanings = [''m''],
          forms = [comparative \<mapsto> None, superlative \<mapsto> None, plural \<mapsto> None],
          word_type = Some ''Verb''\<rparr>"
proof (intro conjI impI)
  assume "process_word net (strip l) = Inr r"
  then show "word r = lower (strip l)"
    using process_word_word [of net "strip l" r] by (simp add: strip_strip)
next
  assume "process_words_from_file net lines = Inr rs"
  then show "map word rs = map (\<lambda>l. lower (strip l)) (filter (\<lambda>l. strip l \<noteq> []) lines)"
    by (rule process_words_from_file_words)
next
  assume "strip l \<noteq> [] \<and> IRREGULAR_VERBS (lower (strip l)) = None"
  then show "\<exists>r'. process_word (typed_only t) (strip l) = Inr r' \<and> word r' = lower (strip l) \<and>
         (lower t = ''verb'' \<longrightarrow>
            forms r' past_tense = map_option Some (get_verb_forms (strip l) past_tense) \<and>
            forms r' past_participle =
              map_option Some (get_verb_forms (strip l) past_participle)) \<and>
         (lower t = ''noun'' \<longrightarrow> forms r' plural = Some (get_noun_forms (strip l) plural)) \<and>
         (lower t = ''adjective'' \<longrightarrow>
            forms r' comparative = map_option Some (get_adjective_forms (strip l) comparative) \<and>
            forms r' superlative =
              map_option Some (get_adjective_forms (strip l) superlative))"
    using process_word_typed_only [of l t] by blast
next
  show "inference_block ''Lezen''
       ([], \<lparr>word = ''lezen'', meanings = [], forms = Map.empty, word_type = Some []\<rparr>) =
     (''verb'', \<lparr>word = ''lezen'', meanings = [],
               forms = [past_tense \<mapsto> Some ''Lezde'', past_participle \<mapsto> Some ''geLezd''],
               word_type = Some ''verb''\<rparr>)"
    by (simp add: inference_block_def IRREGULAR_VERBS_def rules_eval endswith_def lower_char_def
        any_values_def forms_get_def Let_def fun_eq_iff)
  show "inference_block ''lezen''
       ([], \<lparr>word = ''lezen'', meanings = [], forms = Map.empty, word_type = Some []\<rparr>) =
     (''verb'', \<lparr>word = ''lezen'', meanings = [], forms = Map.empty,
               word_type = Some ''verb''\<rparr>)"
    by (simp add: inference_block_def IRREGULAR_VERBS_def rules_eval endswith_def
        any_values_def forms_get_def Let_def fun_eq_iff)
next
  assume "IRREGULAR_VERBS (lower (strip l)) \<noteq> None \<and> lower (strip l') = lower (strip l)"
  then show "process_word net (strip l') = process_word net (strip l)"
    using process_word_irregular_case [of "strip l" "strip l'" net] by (simp add: strip_strip)
next
  show "lower (strip ''WERKEN'') = lower (strip ''werken'')"
    by (simp add: string_eval)
  show "process_word (typed_only ''Verb'') ''werken'' =
     Inr \<lparr>word = ''werken'', meanings = [''m''],
          forms = [past_tense \<mapsto> Some ''werkte'', past_participle \<mapsto> Some ''gewerkt'',
                   comparative \<mapsto> None, superlative \<mapsto> None, plural \<mapsto> None],
          word_type = Some ''Verb''\<rparr>"
    by (simp add: typed_only_def string_eval lookup_eval rules_eval pipeline_eval fun_eq_iff)
  show "process_word (typed_only ''Verb'') ''WERKEN'' =
     Inr \<lparr>word = ''werken'', meanings = [''m''],
          forms = [comparative \<mapsto> None, superlative \<mapsto> None, plural \<mapsto> None],
          word_type = Some ''Verb''\<rparr>"
    by (simp add: typed_only_def string_eval lookup_eval rules_eval pipeline_eval fun_eq_iff)
qed

theorem record_word_normalised_witness:
  "(\<exists>r. process_word (typed_only ''Verb'') (strip ''  WerKen '') = Inr r \<and> word r = ''werken'') \<and>
   (\<exists>rs. process_words_from_file (typed_only ''Noun'')
           ['' Tafel\<newline>'', ''   \<newline>'', ''BOOM\<newline>''] = Inr rs \<and>
         map word rs = [''tafel'', ''boom'']) \<and>
   (\<exists>r. process_word (typed_only ''Noun'') (strip '' TAFEL\<newline>'') = Inr r \<and> word r = ''tafel'' \<and>
        forms r plural = Some (Some ''TAFELen'')) \<and>
   (\<exists>r. process_word (typed_only ''Noun'') (strip '' tafel\<newline>'') = Inr r \<and> word r = ''tafel'' \<and>
        forms r plural = Some (Some ''tafels'')) \<and>
   (\<exists>r. process_word (typed_only ''Adjective'') (strip ''GROOT'') = Inr r \<and> word r = ''groot'' \<and>
        forms r comparative = Some (Some ''GROOTer'') \<and>
        forms r superlative = Some (Some ''GROOTst'')) \<and>
   (\<exists>r. process_word (typed_only ''Verb'') (strip ''Noemen'') = Inr r \<and> word r = ''noemen'' \<and>
        forms r past_tense = Some (Some ''Noemde'') \<and>
        forms r past_participle = Some (Some ''geNoemd'')) \<and>
   process_word (typed_only ''Verb'') (strip ''Lezen'') =
     process_word (typed_only ''Verb'') (strip ''lezen'')"
proof -
  obtain r where r: "process_word (typed_only ''Verb'') (strip ''  WerKen '') = Inr r"
    by (simp add: typed_only_def string_eval lookup_eval rules_eval pipeline_eval)
  obtain rs where rs: "process_words_from_file (typed_only ''Noun'')
      ['' Tafel\<newline>'', ''   \<newline>'', ''BOOM\<newline>''] = Inr rs"
    by (simp add: process_words_from_file_def read_words_def typed_only_def string_eval
        lookup_eval rules_eval pipeline_eval)
  have s: "lower (strip ''  WerKen '') = ''werken''"
    "map (\<lambda>l. lower (strip l))
       (filter (\<lambda>l. strip l \<noteq> []) ['' Tafel\<newline>'', ''   \<newline>'', ''BOOM\<newline>'']) =
     [''tafel'', ''boom'']"
    by (simp_all add: string_eval)
  have a: "\<exists>r. process_word (typed_only ''Verb'') (strip ''  WerKen '') = Inr r \<and> word r = ''werken''"
    using record_word_normalised [where net = "typed_only ''Verb''" and l = "''  WerKen ''" and r = r]
      r s by simp
  have b: "\<exists>rs. process_words_from_file (typed_only ''Noun'')
           ['' Tafel\<newline>'', ''   \<newline>'', ''BOOM\<newline>''] = Inr rs \<and>
         map word rs = [''tafel'', ''boom'']"
    using record_word_normalised [where net = "typed_only ''Noun''"
        and lines = "['' Tafel\<newline>'', ''   \<newline>'', ''BOOM\<newline>'']" and rs = rs] rs s
    by simp
  have e: "strip '' TAFEL\<newline>'' = ''TAFEL''" "strip '' tafel\<newline>'' = ''tafel''"
    "strip ''GROOT'' = ''GROOT''" "strip ''Noemen'' = ''Noemen''"
    "strip ''Lezen'' = ''Lezen''" "strip ''lezen'' = ''lezen''"
    "lower ''TAFEL'' = ''tafel''" "lower ''tafel'' = ''tafel''" "lower ''GROOT'' = ''groot''"
    "lower ''Noemen'' = ''noemen''" "lower ''Lezen'' = ''lezen''" "lower ''lezen'' = ''lezen''"
    "lower ''Noun'' = ''noun''" "lower ''Adjective'' = ''adjective''" "lower ''Verb'' = ''verb''"
    by (simp_all add: string_eval)
  have i: "IRREGULAR_VERBS ''tafel'' = None" "IRREGULAR_VERBS ''groot'' = None"
    "IRREGULAR_VERBS ''noemen'' = None" "IRREGULAR_VERBS ''lezen'' \<noteq> None"
    by (simp_all add: IRREGULAR_VERBS_def)
  have g: "get_noun_forms ''TAFEL'' plural = Some ''TAFELen''"
    "get_noun_forms ''tafel'' plural = Some ''tafels''"
    "get_adjective_forms ''GROOT'' comparative = Some ''GROOTer''"
    "get_adjective_forms ''GROOT'' superlative = Some ''GROOTst''"
    "get_verb_forms ''Noemen'' past_tense = Some ''Noemde''"
    "get_verb_forms ''Noemen'' past_participle = Some ''geNoemd''"
    by (simp_all add: get_noun_forms_def get_adjective_forms_def get_verb_forms_def endswith_def
        lower_char_def Let_def)
  have c1: "\<exists>r. process_word (typed_only ''Noun'') (strip '' TAFEL\<newline>'') = Inr r \<and>
      word r = ''tafel'' \<and> forms r plural = Some (Some ''TAFELen'')"
    using record_word_normalised [where l = "'' TAFEL\<newline>''" and t = "''Noun''"] e i g by simp
  have c2: "\<exists>r. process_word (typed_only ''Noun'') (strip '' tafel\<newline>'') = Inr r \<and>
      word r = ''tafel'' \<and> forms r plural = Some (Some ''tafels'')"
    using record_word_normalised [where l = "'' tafel\<newline>''" and t = "''Noun''"] e i g by simp
  have c3: "\<exists>r. process_word (typed_only ''Adjective'') (strip ''GROOT'') = Inr r \<and>
      word r = ''groot'' \<and> forms r comparative = Some (Some ''GROOTer'') \<and>
      forms r superlative = Some (Some ''GROOTst'')"
    using record_word_normalised [where l = "''GROOT''" and t = "''Adjective''"] e i g by simp
  have c4: "\<exists>r. process_word (typed_only ''Verb'') (strip ''Noemen'') = Inr r \<and>
      word r = ''noemen'' \<and> forms r past_tense = Some (Some ''Noemde'') \<and>
      forms r past_participle = Some (Some ''geNoemd'')"
    using record_word_normalised [where l = "''Noemen''" and t = "''Verb''"] e i g by simp
  have d: "process_word (typed_only ''Verb'') (strip ''Lezen'') =
      process_word (typed_only ''Verb'') (strip ''lezen'')"
    using record_word_normalised [where net = "typed_only ''Verb''" and l = "''lezen''"
        and l' = "''Lezen''"] e i by simp
  from a b c1 c2 c3 c4 d show ?thesis by blast
qed

section \<open>Records without a type, and the shape of \<open>forms\<close>\<close>

text \<open>
  When \<open>_get_wiktionary_info\<close> returns \<open>None\<close> (a failed request, or an answer with no
  meaning and no form), the record keeps the seed's \<open>word_type\<close>, which is \<open>None\<close>, and
  line 328 raises before any inference is tried.
\<close>

lemma lookup_without_data_raises:
  assumes "lower (strip w) \<noteq> []" and "get_wiktionary_info net (lower (strip w)) = None"
  shows "process_word net w = Inl AttributeError"
  using assms
  by (simp add: process_word_def get_word_info_def get_woordenboek_info_def seed_def Let_def)

text \<open>
  Claim C2 says that a word for which the collaborator is unavailable or has no data
  goes through the pipeline without an error and never aborts the batch. For \<open>tafel\<close>
  the loop body raises \<open>AttributeError\<close>, with a failing network and with one that
  answers without data; in a batch the exception ends the run, although the word
  before it was processed.
\<close>

theorem no_data_aborts_batch:
  "process_word no_network ''tafel'' = Inl AttributeError \<and>
   process_word not_found ''tafel'' = Inl AttributeError \<and>
   process_word not_found ''lezen'' =
     Inr \<lparr>word = ''lezen'', meanings = [],
          forms = [past_tense \<mapsto> Some ''las'', past_participle \<mapsto> Some ''gelezen'',
                   comparative \<mapsto> None, superlative \<mapsto> None, plural \<mapsto> None],
          word_type = Some ''verb''\<rparr> \<and>
   process_words_from_file not_found [''lezen\<newline>'', ''tafel\<newline>'', ''lopen\<newline>''] =
     Inl AttributeError"
proof (intro conjI)
  show "process_word no_network ''tafel'' = Inl AttributeError"
    by (simp add: no_network_def string_eval lookup_eval pipeline_eval)
  show t: "process_word not_found ''tafel'' = Inl AttributeError"
    by (simp add: not_found_def string_eval lookup_eval pipeline_eval)
  show l: "process_word not_found ''lezen'' =
     Inr \<lparr>word = ''lezen'', meanings = [],
          forms = [past_tense \<mapsto> Some ''las'', past_participle \<mapsto> Some ''gelezen'',
                   comparative \<mapsto> None, superlative \<mapsto> None, plural \<mapsto> None],
          word_type = Some ''verb''\<rparr>"
    by (simp add: not_found_def string_eval lookup_eval rules_eval pipeline_eval fun_eq_iff)
  have "read_words [''lezen\<newline>'', ''tafel\<newline>'', ''lopen\<newline>''] = [''lezen'', ''tafel'', ''lopen'']"
    by (simp add: read_words_def string_eval)
  with t l show "process_words_from_file not_found
      [''lezen\<newline>'', ''tafel\<newline>'', ''lopen\<newline>''] = Inl AttributeError"
    by (simp add: process_words_from_file_def)
qed

text \<open>
  Claim C3 expects, for \<open>werken\<close> without collaborator data, a record of type verb with
  the forms \<open>werkte\<close> and \<open>gewerkt\<close>. The loop body raises \<open>AttributeError\<close> instead,
  whether the requests fail or are answered without data.
\<close>

theorem werken_without_data_raises:
  "process_word no_network ''werken'' = Inl AttributeError \<and>
   process_word not_found ''werken'' = Inl AttributeError \<and>
   process_words_from_file no_network [''werken\<newline>''] = Inl AttributeError"
  by (simp add: process_words_from_file_def read_words_def no_network_def not_found_def
      string_eval lookup_eval pipeline_eval)

text \<open>
  Claim C4 says that the \<open>forms\<close> of every final record has all six keys. The seed has
  them, but \<open>result.update\<close> puts the collaborator's own dictionary in its place, which
  has only the keys that were found. For \<open>lezen\<close>, reported as a verb, the final record
  has no key \<open>present_tense\<close>.
\<close>

theorem forms_key_missing:
  "\<exists>r. process_word (typed_only ''Verb'') ''lezen'' = Inr r \<and>
        word_type r = Some ''Verb'' \<and>
        forms r present_tense = None \<and>
        dom (forms r) = {past_tense, past_participle, plural, comparative, superlative}"
  by (auto simp add: typed_only_def string_eval lookup_eval rules_eval pipeline_eval dom_def)

text \<open>
  Claim C8 says that every batch yields one record for each non-blank line. The lines
  below hold three words and a blank line; \<open>words\<close> is read as the claim says, but the
  run ends with \<open>AttributeError\<close> at \<open>huis\<close>, for which the collaborator has no data, and
  returns no record at all.
\<close>

theorem batch_without_data_raises:
  "read_words [''lezen\<newline>'', ''\<newline>'', ''  huis \<newline>'', ''boom\<newline>''] = [''lezen'', ''huis'', ''boom''] \<and>
   process_words_from_file not_found [''lezen\<newline>'', ''\<newline>'', ''  huis \<newline>'', ''boom\<newline>''] =
     Inl AttributeError"
  by (simp add: process_words_from_file_def read_words_def not_found_def
      string_eval lookup_eval rules_eval pipeline_eval)

end
